theory Spec2Isabelle
  imports Main "HOL-Library.Multiset" "HOL-Library.Word"
begin

section \<open>Data model of package htmltest\<close>

text \<open>
  The session type \<open>HTMLTest\<close> and the functions \<open>Test\<close>, \<open>testDocuments\<close>,
  \<open>testDocument\<close>, \<open>postChecks\<close>, \<open>CountErrors\<close> and \<open>CountDocuments\<close> live in
  \<^verbatim>\<open>htmltest/htmltest.go\<close>. The packages \<^verbatim>\<open>issues\<close>, \<^verbatim>\<open>htmldoc\<close>, \<^verbatim>\<open>refcache\<close> and
  \<^verbatim>\<open>output\<close>, the \<open>Options\<close> struct with \<open>setOptions\<close>, and the individual checkers
  (\<open>checkLink\<close>, \<open>checkImg\<close>, ...) are defined elsewhere; what \<^verbatim>\<open>htmltest.go\<close> uses of them
  is either taken as a parameter or modelled from the design document, as marked below.
\<close>

subsection \<open>Issues and the issue store\<close>

text \<open>
  The two levels \<^verbatim>\<open>issues.LevelWarning\<close> and \<^verbatim>\<open>issues.LevelError\<close> that the source names.
\<close>

datatype Level = LevelWarning | LevelError

text \<open>
  \<^verbatim>\<open>issues.Issue\<close>: the source fills \<open>Level\<close> and \<open>Message\<close>; the owning document is
  optional and is left empty by both issue literals of \<^verbatim>\<open>htmltest.go\<close>. A document is
  named by its path.
\<close>

record Issue =
  Level :: Level
  Message :: string
  Document :: "string option"

text \<open>
  Modelled from the spec: the issue store of package \<^verbatim>\<open>issues\<close> (\<open>NewIssueStore\<close>,
  \<open>AddIssue\<close>, \<open>Count\<close>, \<open>PrintDocumentIssues\<close>) is not part of \<^verbatim>\<open>htmltest.go\<close>. The
  design document describes it as an append-only, leveled collection; \<open>Count(level)\<close>
  counts the stored issues of one level; in print-immediately mode an issue is printed at
  insertion; \<open>PrintDocumentIssues(document)\<close> prints the issues of one document as a
  block. The field \<open>printed\<close> is everything the store has written to the terminal so far.
\<close>

record IssueStore =
  logLevel :: int
  printImmediately :: bool
  issues :: "Issue list"
  printed :: "Issue list"

definition NewIssueStore :: "int \<Rightarrow> bool \<Rightarrow> IssueStore" where
  "NewIssueStore lvl imm =
     \<lparr>logLevel = lvl, printImmediately = imm, issues = [], printed = []\<rparr>"

definition AddIssue :: "Issue \<Rightarrow> IssueStore \<Rightarrow> IssueStore" where
  "AddIssue i iS =
     iS\<lparr>issues := issues iS @ [i],
        printed := (if printImmediately iS then printed iS @ [i] else printed iS)\<rparr>"

definition Count :: "IssueStore \<Rightarrow> Level \<Rightarrow> int" where
  "Count iS lvl = int (length (filter (\<lambda>i. Level i = lvl) (issues iS)))"

definition PrintDocumentIssues :: "string \<Rightarrow> IssueStore \<Rightarrow> IssueStore" where
  "PrintDocumentIssues doc iS =
     iS\<lparr>printed := printed iS @ filter (\<lambda>i. Document i = Some doc) (issues iS)\<rparr>"

subsection \<open>Documents\<close>

text \<open>
  \<^verbatim>\<open>htmldoc.Document\<close> as far as \<^verbatim>\<open>htmltest.go\<close> reads it: the nodes of interest, each
  with its tag name \<open>Data\<close>, and the state bag with the favicon flag. \<open>docPath\<close> stands for
  the identity of the document (the source passes documents by pointer).
\<close>

record Node =
  Data :: string
  Attr :: "(string \<times> string) list"

record DocumentState =
  FaviconPresent :: bool

record Document =
  docPath :: string
  NodesOfInterest :: "Node list"
  State :: DocumentState

text \<open>
  \<^verbatim>\<open>htmldoc.DocumentStore\<close>: the four fields that \<open>Test\<close> sets before discovery, and the
  documents found. (\<open>StoreDirectoryIndex\<close> is the store's \<open>DirectoryIndex\<close>.)
\<close>

record DocumentStore =
  BasePath :: string
  DocumentExtension :: string
  StoreDirectoryIndex :: string
  IgnorePatterns :: "string list"
  Documents :: "Document list"

subsection \<open>Options\<close>

text \<open>
  The \<open>Options\<close> struct is declared in another file of the package; these are the
  fields that \<^verbatim>\<open>htmltest.go\<close> reads, with Go's \<^verbatim>\<open>int\<close> as \<open>int\<close>.
\<close>

record Options =
  DirectoryPath :: string
  DirectoryIndex :: string
  FilePath :: string
  FileExtension :: string
  CheckDoctype :: bool
  CheckAnchors :: bool
  CheckLinks :: bool
  CheckImages :: bool
  CheckScripts :: bool
  CheckMeta :: bool
  CheckGeneric :: bool
  CheckFavicon :: bool
  IgnoreDirs :: "string list"
  TestFilesConcurrently :: bool
  DocumentConcurrencyLimit :: int
  HTTPConcurrencyLimit :: int
  LogLevel :: int
  LogSort :: string
  ExternalTimeout :: int
  EnableCache :: bool
  EnableLog :: bool
  CacheExpires :: string
  OutputDir :: string
  OutputCacheFile :: string
  OutputLogFile :: string
  NoRun :: bool

text \<open>
  A value of the user's option map (\<^verbatim>\<open>map[string]interface{}\<close>); a missing key and a
  \<^verbatim>\<open>nil\<close> value both read as \<open>None\<close>.
\<close>

datatype optval = VString string | VBool bool | VInt int | VList "string list"

subsection \<open>Calls made while testing\<close>

text \<open>
  What a run does is recorded as the sequence of calls it makes to its collaborators:
  the document store, the checkers, the issue store and the file system. The string of a
  document-level call is the path of the document concerned. \<open>CallPostChecks\<close> marks the
  entry into \<open>postChecks\<close>.
\<close>

datatype call =
    CallOpen string
  | CallStat string
  | CallDiscover DocumentStore
  | CallResolvePath string
  | CallParse string
  | CallCheckDoctype string
  | CallCheckLink string Node
  | CallCheckImg string Node
  | CallCheckScript string Node
  | CallCheckMeta string Node
  | CallCheckGeneric string Node string
  | CallPostChecks string
  | CallAddIssue Issue
  | CallPrintDocumentIssues string
  | CallWriteStore string
  | CallWriteLog string

text \<open>The effect of a call on the issue store; only two kinds of call touch it.\<close>

fun apply_call :: "IssueStore \<Rightarrow> call \<Rightarrow> IssueStore" where
  "apply_call iS (CallAddIssue i) = AddIssue i iS"
| "apply_call iS (CallPrintDocumentIssues doc) = PrintDocumentIssues doc iS"
| "apply_call iS _ = iS"

definition run_calls :: "IssueStore \<Rightarrow> call list \<Rightarrow> IssueStore" where
  "run_calls iS cs = foldl apply_call iS cs"

text \<open>The issues a sequence of calls inserts, in order.\<close>

fun issues_in :: "call list \<Rightarrow> Issue list" where
  "issues_in [] = []"
| "issues_in (CallAddIssue i # cs) = i # issues_in cs"
| "issues_in (_ # cs) = issues_in cs"

subsection \<open>The checkers\<close>

text \<open>
  \<open>Document.Parse\<close> and the checkers \<open>checkDoctype\<close>, \<open>checkLink\<close>, \<open>checkImg\<close>,
  \<open>checkScript\<close>, \<open>checkMeta\<close> and \<open>checkGeneric\<close> are defined in other files of the
  repository and are parameters here. A checker receives the document (and node, and
  attribute name), may update the document's state, and reports its findings through
  \<open>AddIssue\<close>: it returns the updated document and the issues it adds, in order. What
  a checker finds is thus a function of the document and the node. \<open>Parse\<close> returns
  \<open>None\<close> when it panics (the design document calls a failing parse unrecoverable); it
  is the one collaborator that is given a failing outcome.
\<close>

record Checkers =
  Parse :: "Document \<Rightarrow> Document option"
  checkDoctype :: "Document \<Rightarrow> Document \<times> Issue list"
  checkLink :: "Document \<Rightarrow> Node \<Rightarrow> Document \<times> Issue list"
  checkImg :: "Document \<Rightarrow> Node \<Rightarrow> Document \<times> Issue list"
  checkScript :: "Document \<Rightarrow> Node \<Rightarrow> Document \<times> Issue list"
  checkMeta :: "Document \<Rightarrow> Node \<Rightarrow> Document \<times> Issue list"
  checkGeneric :: "Document \<Rightarrow> Node \<Rightarrow> string \<Rightarrow> Document \<times> Issue list"

text \<open>A call to a checker, followed by the \<open>AddIssue\<close> calls the checker makes.\<close>

definition checked :: "call \<Rightarrow> Document \<times> Issue list \<Rightarrow> Document \<times> call list" where
  "checked c r = (fst r, c # map CallAddIssue (snd r))"

section \<open>Testing one document\<close>

text \<open>The \<^verbatim>\<open>switch n.Data\<close> of \<open>testDocument\<close>, for one node.\<close>

definition dispatch ::
  "Checkers \<Rightarrow> Options \<Rightarrow> string \<Rightarrow> Node \<Rightarrow> Document \<Rightarrow> Document \<times> call list" where
  "dispatch ck opt p n d =
    (if Data n = ''a'' then
       (if CheckAnchors opt then checked (CallCheckLink p n) (checkLink ck d n) else (d, []))
     else if Data n = ''link'' then
       (if CheckLinks opt then checked (CallCheckLink p n) (checkLink ck d n) else (d, []))
     else if Data n = ''img'' then
       (if CheckImages opt then checked (CallCheckImg p n) (checkImg ck d n) else (d, []))
     else if Data n = ''script'' then
       (if CheckScripts opt then checked (CallCheckScript p n) (checkScript ck d n)
        else (d, []))
     else if Data n = ''meta'' then
       (if CheckMeta opt then checked (CallCheckMeta p n) (checkMeta ck d n) else (d, []))
     else if Data n = ''area'' then
       (if CheckGeneric opt
        then checked (CallCheckGeneric p n ''href'') (checkGeneric ck d n ''href'')
        else (d, []))
     else if Data n \<in> set [''blockquote'', ''del'', ''ins'', ''q''] then
       (if CheckGeneric opt
        then checked (CallCheckGeneric p n ''cite'') (checkGeneric ck d n ''cite'')
        else (d, []))
     else if Data n \<in> set [''iframe'', ''input'', ''audio'', ''embed'', ''source'', ''track''] then
       (if CheckGeneric opt
        then checked (CallCheckGeneric p n ''src'') (checkGeneric ck d n ''src'')
        else (d, []))
     else if Data n = ''video'' then
       (if CheckGeneric opt then
          (let r1 = checked (CallCheckGeneric p n ''src'') (checkGeneric ck d n ''src'');
               r2 = checked (CallCheckGeneric p n ''poster'')
                      (checkGeneric ck (fst r1) n ''poster'')
           in (fst r2, snd r1 @ snd r2))
        else (d, []))
     else if Data n = ''object'' then
       (if CheckGeneric opt
        then checked (CallCheckGeneric p n ''data'') (checkGeneric ck d n ''data'')
        else (d, []))
     else (d, []))"

text \<open>The loop over \<^verbatim>\<open>document.NodesOfInterest\<close>.\<close>

fun traverse ::
  "Checkers \<Rightarrow> Options \<Rightarrow> string \<Rightarrow> Node list \<Rightarrow> Document \<Rightarrow> Document \<times> call list" where
  "traverse ck opt p [] d = (d, [])"
| "traverse ck opt p (n # ns) d =
     (let r1 = dispatch ck opt p n d;
          r2 = traverse ck opt p ns (fst r1)
      in (fst r2, snd r1 @ snd r2))"

definition favicon_missing :: Issue where
  "favicon_missing = \<lparr>Level = LevelError, Message = ''favicon missing'', Document = None\<rparr>"

definition postChecks :: "Options \<Rightarrow> string \<Rightarrow> Document \<Rightarrow> call list" where
  "postChecks opt p d =
     CallPostChecks p #
     (if CheckFavicon opt \<and> \<not> FaviconPresent (State d)
      then [CallAddIssue favicon_missing] else [])"

text \<open>
  How a function ends: it returns, it panics, or (only the concurrent \<open>testDocuments\<close>) it
  never gets past \<^verbatim>\<open>wg.Wait()\<close>.
\<close>

datatype outcome = Returns | Panics | Blocks

text \<open>Lines 152 to 154: the doctype check, when enabled, on the parsed document.\<close>

definition doctype_calls ::
  "Checkers \<Rightarrow> Options \<Rightarrow> string \<Rightarrow> Document \<Rightarrow> Document \<times> call list" where
  "doctype_calls ck opt p d0 =
     (if CheckDoctype opt then checked (CallCheckDoctype p) (checkDoctype ck d0) else (d0, []))"

text \<open>
  \<open>testDocument\<close>: parse, doctype check, the loop over the nodes, \<open>postChecks\<close>, and
  under \<open>LogSort = document\<close> the printing of the document's issues. The result is the
  sequence of calls made and how the function ends.
\<close>

definition testDocument :: "Checkers \<Rightarrow> Options \<Rightarrow> Document \<Rightarrow> call list \<times> outcome" where
  "testDocument ck opt document =
    (let p = docPath document in
     case Parse ck document of
       None \<Rightarrow> ([CallParse p], Panics)
     | Some d0 \<Rightarrow>
        (let r1 = doctype_calls ck opt p d0;
             r2 = traverse ck opt p (NodesOfInterest (fst r1)) (fst r1);
             c3 = postChecks opt p (fst r2);
             c4 = (if LogSort opt = ''document'' then [CallPrintDocumentIssues p] else [])
         in (CallParse p # snd r1 @ snd r2 @ c3 @ c4, Returns)))"

section \<open>Testing all documents\<close>

subsection \<open>Sequential mode\<close>

text \<open>
  The \<^verbatim>\<open>else\<close> branch of \<open>testDocuments\<close>: the documents in store order; a panic ends
  the loop.
\<close>

fun testDocuments_seq :: "Checkers \<Rightarrow> Options \<Rightarrow> Document list \<Rightarrow> call list \<times> outcome" where
  "testDocuments_seq ck opt [] = ([], Returns)"
| "testDocuments_seq ck opt (d # ds) =
     (let r = testDocument ck opt d in
      if snd r = Returns
      then (let r' = testDocuments_seq ck opt ds in (fst r @ fst r', snd r'))
      else r)"

subsection \<open>Concurrent mode\<close>

text \<open>
  \<^verbatim>\<open>make(chan bool, n)\<close> panics for a negative size; otherwise the channel has capacity
  \<open>n\<close>. (Sizes beyond the allocator's limit are left out.)
\<close>

definition make_chan :: "int \<Rightarrow> nat option" where
  "make_chan n = (if n < 0 then None else Some (nat n))"

definition concurrent_advisory :: Issue where
  "concurrent_advisory =
     \<lparr>Level = LevelWarning,
      Message = ''running in concurrent mode, this is experimental'',
      Document = None\<rparr>"

text \<open>
  The goroutines of the concurrent branch, as an interleaving of atomic steps.

  The main goroutine runs the loop \<^verbatim>\<open>wg.Add(1); concChannel <- true; go func ...\<close>: \<open>mpc\<close> is
  the statement it is about to execute for the first pending document (\<open>AtLoop\<close>: before
  \<^verbatim>\<open>wg.Add(1)\<close>, or at \<^verbatim>\<open>wg.Wait()\<close> when no document is pending; \<open>AtSend\<close>: before the
  send; \<open>AtGo\<close>: before the \<^verbatim>\<open>go\<close> statement).

  A started goroutine is a \<open>task\<close>: \<open>todo\<close> are the calls \<open>testDocument\<close> still has to
  make, \<open>ending\<close> is how \<open>testDocument\<close> ends, and \<open>phase\<close> says where the goroutine is:
  \<open>InTest\<close> inside \<open>testDocument\<close>; \<open>Deferred\<close> past \<open>testDocument\<close> (and, when it
  returned, past the receive \<^verbatim>\<open><-concChannel\<close>), with the deferred \<^verbatim>\<open>wg.Done()\<close> still to
  run; \<open>Gone\<close> afterwards.

  \<open>chanFill\<close> is the number of values buffered in \<open>concChannel\<close>, \<open>wg\<close> the counter of
  the wait group, \<open>trace\<close> the calls made so far by all goroutines together, and
  \<open>crashed\<close> says that an unrecovered panic has ended the process.
\<close>

datatype phase = InTest | Deferred | Gone

record task =
  todo :: "call list"
  ending :: outcome
  phase :: phase

datatype mainpc = AtLoop | AtSend | AtGo

record cstate =
  pending :: "Document list"
  mpc :: mainpc
  chanFill :: nat
  wg :: nat
  tasks :: "task list"
  trace :: "call list"
  crashed :: bool

definition new_task :: "Checkers \<Rightarrow> Options \<Rightarrow> Document \<Rightarrow> task" where
  "new_task ck opt d =
     (let r = testDocument ck opt d in \<lparr>todo = fst r, ending = snd r, phase = InTest\<rparr>)"

text \<open>
  One step of the main goroutine. A step that is not enabled (the send on a full channel,
  \<^verbatim>\<open>wg.Wait()\<close>, anything after a crash) leaves the state as it is.
\<close>

definition main_step :: "Checkers \<Rightarrow> Options \<Rightarrow> nat \<Rightarrow> cstate \<Rightarrow> cstate" where
  "main_step ck opt cap s =
    (if crashed s then s
     else case pending s of
       [] \<Rightarrow> s
     | d # ds \<Rightarrow>
        (case mpc s of
           AtLoop \<Rightarrow> s\<lparr>wg := wg s + 1, mpc := AtSend\<rparr>
         | AtSend \<Rightarrow> (if chanFill s < cap then s\<lparr>chanFill := chanFill s + 1, mpc := AtGo\<rparr>
                     else s)
         | AtGo \<Rightarrow> s\<lparr>tasks := tasks s @ [new_task ck opt d], pending := ds, mpc := AtLoop\<rparr>))"

text \<open>
  One step of the goroutine started for the \<open>i\<close>-th document: the next call of
  \<open>testDocument\<close>; or, when \<open>testDocument\<close> has returned, the receive from the channel;
  or, when it has panicked, nothing but the move to the deferred call; or the deferred
  \<^verbatim>\<open>wg.Done()\<close>, after which a panicking goroutine takes the process down (no goroutine
  recovers; the deferred call and the end of the process are one step here).
  \<^verbatim>\<open>wg.Done()\<close> on a zero counter panics. A step that is not enabled leaves the state as
  it is.
\<close>

definition task_step :: "nat \<Rightarrow> cstate \<Rightarrow> cstate" where
  "task_step i s =
    (if crashed s \<or> length (tasks s) \<le> i then s
     else
      (let t = tasks s ! i in
       case phase t of
         InTest \<Rightarrow>
           (case todo t of
              c # cs \<Rightarrow> s\<lparr>tasks := (tasks s)[i := t\<lparr>todo := cs\<rparr>], trace := trace s @ [c]\<rparr>
            | [] \<Rightarrow>
               (case ending t of
                  Returns \<Rightarrow>
                    (if 0 < chanFill s
                     then s\<lparr>tasks := (tasks s)[i := t\<lparr>phase := Deferred\<rparr>],
                            chanFill := chanFill s - 1\<rparr>
                     else s)
                | Panics \<Rightarrow> s\<lparr>tasks := (tasks s)[i := t\<lparr>phase := Deferred\<rparr>]\<rparr>
                | Blocks \<Rightarrow> s))
       | Deferred \<Rightarrow>
           (if wg s = 0 then s\<lparr>crashed := True\<rparr>
            else s\<lparr>tasks := (tasks s)[i := t\<lparr>phase := Gone\<rparr>],
                   wg := wg s - 1,
                   crashed := (ending t = Panics)\<rparr>)
       | Gone \<Rightarrow> s))"

text \<open>The scheduler's choice of who moves next, and a run under a list of choices.\<close>

datatype choice = Main | Task nat

fun conc_step :: "Checkers \<Rightarrow> Options \<Rightarrow> nat \<Rightarrow> cstate \<Rightarrow> choice \<Rightarrow> cstate" where
  "conc_step ck opt cap s Main = main_step ck opt cap s"
| "conc_step ck opt cap s (Task i) = task_step i s"

definition conc_run :: "Checkers \<Rightarrow> Options \<Rightarrow> nat \<Rightarrow> choice list \<Rightarrow> cstate \<Rightarrow> cstate" where
  "conc_run ck opt cap sched s = foldl (conc_step ck opt cap) s sched"

definition conc_init :: "Document list \<Rightarrow> cstate" where
  "conc_init docs =
     \<lparr>pending = docs, mpc = AtLoop, chanFill = 0, wg = 0, tasks = [],
      trace = [CallAddIssue concurrent_advisory], crashed = False\<rparr>"

text \<open>\<^verbatim>\<open>wg.Wait()\<close> returns: the loop is over and the counter is zero.\<close>

definition finished :: "cstate \<Rightarrow> bool" where
  "finished s \<longleftrightarrow> pending s = [] \<and> mpc s = AtLoop \<and> wg s = 0 \<and> \<not> crashed s"

text \<open>The document tasks that are executing \<open>testDocument\<close>.\<close>

definition executing :: "cstate \<Rightarrow> nat" where
  "executing s = length (filter (\<lambda>t. phase t = InTest) (tasks s))"

text \<open>
  \<open>testDocuments\<close>. In concurrent mode the result depends on the scheduler, given as the
  list \<open>sched\<close> of its choices; a schedule that does not bring the main goroutine past
  \<^verbatim>\<open>wg.Wait()\<close> yields \<open>Blocks\<close>.
\<close>

definition testDocuments ::
  "Checkers \<Rightarrow> Options \<Rightarrow> choice list \<Rightarrow> Document list \<Rightarrow> call list \<times> outcome" where
  "testDocuments ck opt sched docs =
    (if TestFilesConcurrently opt then
       (case make_chan (DocumentConcurrencyLimit opt) of
          None \<Rightarrow> ([CallAddIssue concurrent_advisory], Panics)
        | Some cap \<Rightarrow>
           (let s = conc_run ck opt cap sched (conc_init docs)
            in (trace s, if crashed s then Panics else if finished s then Returns else Blocks)))
     else testDocuments_seq ck opt docs)"


section \<open>The session and \<open>Test\<close>\<close>

subsection \<open>Collaborators\<close>

text \<open>
  Go's \<^verbatim>\<open>path.Ext\<close>: the suffix of the path that begins at the last dot of its last
  slash-separated element, empty when that element has no dot. The scan runs from the
  end of the path; \<open>acc\<close> is the part already passed.
\<close>

fun ext_scan :: "string \<Rightarrow> string \<Rightarrow> string" where
  "ext_scan [] acc = []"
| "ext_scan (c # cs) acc =
     (if c = CHR ''/'' then []
      else if c = CHR ''.'' then c # acc
      else ext_scan cs (c # acc))"

definition path_Ext :: "string \<Rightarrow> string" where
  "path_Ext p = ext_scan (rev p) []"

text \<open>
  What \<^verbatim>\<open>os.Open\<close> followed by \<^verbatim>\<open>f.Stat()\<close> can find at the root path: nothing there;
  another error of \<open>Open\<close> (the path cannot be read); an error of \<open>Stat\<close>; a file; a
  directory.
\<close>

datatype fs_probe = NotExist | OpenFails | StatFails | IsFile | IsDir

text \<open>
  The collaborators of \<open>Test\<close> that are defined outside \<^verbatim>\<open>htmltest.go\<close>, as parameters:
  \<open>setOptions\<close> (merging the user's options with the defaults), the standard library's
  \<^verbatim>\<open>path.Join\<close>, the file system at the root path, and the document store's \<open>Discover\<close>
  and \<open>ResolvePath\<close>.
\<close>

record Collab =
  setOptions :: "(string \<rightharpoonup> optval) \<Rightarrow> Options"
  pathJoin :: "string \<Rightarrow> string \<Rightarrow> string"
  probe :: "string \<Rightarrow> fs_probe"
  Discover :: "DocumentStore \<Rightarrow> Document list"
  ResolvePath :: "DocumentStore \<Rightarrow> string \<Rightarrow> Document option"

subsection \<open>The session\<close>

text \<open>
  \<open>Timeout\<close> is a \<^verbatim>\<open>time.Duration\<close> in nanoseconds. \<open>httpChannel\<close> is the capacity of the
  buffered channel. Of the reference cache the source shows the two arguments of
  \<open>NewRefCache\<close>.
\<close>

record Client =
  Timeout :: int

record RefCache =
  cachePath :: string
  cacheExpires :: string

record HTMLTest =
  opts :: Options
  httpClient :: Client
  httpChannel :: nat
  documentStore :: DocumentStore
  issueStore :: IssueStore
  refCache :: RefCache

text \<open>How \<open>Test\<close> ends, next to the calls it has made.\<close>

datatype result = Returned HTMLTest | Aborted "string list" | Panicked | Blocked

text \<open>
  Lines 34 to 37: a \<open>FilePath\<close> entry in the user's options replaces the
  \<open>FileExtension\<close> entry; the type assertion panics when \<open>FilePath\<close> is not a string.
\<close>

definition setFileExtension :: "(string \<rightharpoonup> optval) \<Rightarrow> (string \<rightharpoonup> optval) option" where
  "setFileExtension optsUser =
    (case optsUser ''FilePath'' of
       None \<Rightarrow> Some optsUser
     | Some (VString p) \<Rightarrow> Some (optsUser(''FileExtension'' \<mapsto> VString (path_Ext p)))
     | Some _ \<Rightarrow> None)"

definition cachePathOf :: "Collab \<Rightarrow> Options \<Rightarrow> string" where
  "cachePathOf col opt =
     (if EnableCache opt then pathJoin col (OutputDir opt) (OutputCacheFile opt) else [])"

definition emptyDocumentStore :: DocumentStore where
  "emptyDocumentStore =
     \<lparr>BasePath = [], DocumentExtension = [], StoreDirectoryIndex = [],
      IgnorePatterns = [], Documents = []\<rparr>"

text \<open>
  Lines 39 to 68: the options, the issue store (printing immediately when \<open>LogSort\<close> is
  \<open>seq\<close>), the HTTP client (the product is taken in 64 bits), the fetch limiter channel
  and the reference cache. \<open>None\<close> is the panic of \<^verbatim>\<open>make\<close>.
\<close>

definition newSession :: "Collab \<Rightarrow> (string \<rightharpoonup> optval) \<Rightarrow> HTMLTest option" where
  "newSession col u =
    (let opt = setOptions col u in
     case make_chan (HTTPConcurrencyLimit opt) of
       None \<Rightarrow> None
     | Some c \<Rightarrow>
        Some \<lparr>opts = opt,
              httpClient =
                \<lparr>Timeout = sint (word_of_int (ExternalTimeout opt) * 1000000000 :: 64 word)\<rparr>,
              httpChannel = c,
              documentStore = emptyDocumentStore,
              issueStore = NewIssueStore (LogLevel opt) (LogSort opt = ''seq''),
              refCache = \<lparr>cachePath = cachePathOf col opt, cacheExpires = CacheExpires opt\<rparr>\<rparr>)"

text \<open>Lines 87 to 93: the document store as it is set up for \<open>Discover\<close>.\<close>

definition configuredStore :: "Options \<Rightarrow> DocumentStore" where
  "configuredStore opt =
     \<lparr>BasePath = DirectoryPath opt, DocumentExtension = FileExtension opt,
      StoreDirectoryIndex = DirectoryIndex opt, IgnorePatterns = IgnoreDirs opt,
      Documents = []\<rparr>"

text \<open>Line 95: the store after \<open>Discover\<close>.\<close>

definition discoveredStore :: "Collab \<Rightarrow> Options \<Rightarrow> DocumentStore" where
  "discoveredStore col opt =
     (configuredStore opt)\<lparr>Documents := Discover col (configuredStore opt)\<rparr>"

text \<open>
  Lines 112 to 120: the cache and the log are written when enabled, and the session is
  returned. The issue store of the returned session is the initial one after all calls.
\<close>

definition finishRun :: "Collab \<Rightarrow> HTMLTest \<Rightarrow> call list \<Rightarrow> result \<times> call list" where
  "finishRun col hT tr =
    (let opt = opts hT;
         tr1 = tr
           @ (if EnableCache opt then [CallWriteStore (cachePathOf col opt)] else [])
           @ (if EnableLog opt
              then [CallWriteLog (pathJoin col (OutputDir opt) (OutputLogFile opt))] else [])
     in (Returned (hT\<lparr>issueStore := run_calls (issueStore hT) tr1\<rparr>), tr1))"

text \<open>
  Modelled from the spec: \<open>output.AbortWith\<close> and \<open>output.CheckErrorPanic\<close> are not part
  of \<^verbatim>\<open>htmltest.go\<close>. \<open>AbortWith(message...)\<close> terminates the run immediately with the
  given message; \<open>CheckErrorPanic\<close> is the abort on an unexpected internal error.

  Lines 74 to 110: the root path is opened and examined, the documents are discovered,
  and either the one requested document or all documents are tested.
\<close>

definition runTests ::
  "Collab \<Rightarrow> Checkers \<Rightarrow> choice list \<Rightarrow> HTMLTest \<Rightarrow> result \<times> call list" where
  "runTests col ck sched hT =
    (let opt = opts hT; dir = DirectoryPath opt in
     case probe col dir of
       NotExist \<Rightarrow>
         (Aborted [''Cannot access '' @ [CHR 0x27] @ dir @ [CHR 0x27] @ '', no such directory.''],
          [CallOpen dir])
     | OpenFails \<Rightarrow> (Panicked, [CallOpen dir, CallStat dir])
     | StatFails \<Rightarrow> (Panicked, [CallOpen dir, CallStat dir])
     | IsFile \<Rightarrow>
         (Aborted [''DirectoryIndex '' @ [CHR 0x27] @ dir @ [CHR 0x27]
                     @ '' is a file, not a directory.''],
          [CallOpen dir, CallStat dir])
     | IsDir \<Rightarrow>
        (let ds = discoveredStore col opt;
             hT1 = hT\<lparr>documentStore := ds\<rparr>;
             tr = [CallOpen dir, CallStat dir, CallDiscover (configuredStore opt)]
         in if FilePath opt \<noteq> [] then
              (case ResolvePath col ds (FilePath opt) of
                 None \<Rightarrow>
                   (Aborted [''Could not find document'', FilePath opt, ''in'', dir],
                    tr @ [CallResolvePath (FilePath opt)])
               | Some doc \<Rightarrow>
                  (let r = testDocument ck opt doc;
                       tr1 = tr @ [CallResolvePath (FilePath opt)] @ fst r
                   in if snd r = Returns then finishRun col hT1 tr1 else (Panicked, tr1)))
            else if dir \<noteq> [] then
              (let r = testDocuments ck opt sched (Documents ds);
                   tr1 = tr @ fst r
               in case snd r of
                    Returns \<Rightarrow> finishRun col hT1 tr1
                  | Panics \<Rightarrow> (Panicked, tr1)
                  | Blocks \<Rightarrow> (Blocked, tr1))
            else (Aborted [''Neither file or directory path provided''], tr)))"

definition Test ::
  "Collab \<Rightarrow> Checkers \<Rightarrow> choice list \<Rightarrow> (string \<rightharpoonup> optval) \<Rightarrow> result \<times> call list" where
  "Test col ck sched optsUser =
    (case setFileExtension optsUser of
       None \<Rightarrow> (Panicked, [])
     | Some u \<Rightarrow>
        (case newSession col u of
           None \<Rightarrow> (Panicked, [])
         | Some hT \<Rightarrow>
            if NoRun (opts hT) then (Returned hT, []) else runTests col ck sched hT))"

definition CountErrors :: "HTMLTest \<Rightarrow> int" where
  "CountErrors hT = Count (issueStore hT) LevelError"

definition CountDocuments :: "HTMLTest \<Rightarrow> int" where
  "CountDocuments hT = int (length (Documents (documentStore hT)))"

section \<open>Notions used in the statements\<close>

subsection \<open>Order of the checks within one document\<close>

text \<open>The calls of the loop over the nodes are the calls to the per-node checkers.\<close>

fun is_node_check :: "call \<Rightarrow> bool" where
  "is_node_check (CallCheckLink p n) = True"
| "is_node_check (CallCheckImg p n) = True"
| "is_node_check (CallCheckScript p n) = True"
| "is_node_check (CallCheckMeta p n) = True"
| "is_node_check (CallCheckGeneric p n a) = True"
| "is_node_check _ = False"

text \<open>
  A call \<open>c\<close> is made after the traversal when it occurs and no per-node check follows
  it; it is made before the traversal when it occurs and no per-node check precedes it.
\<close>

definition after_traversal :: "call \<Rightarrow> call list \<Rightarrow> bool" where
  "after_traversal c cs \<longleftrightarrow>
     c \<in> set cs \<and> list_all (\<lambda>x. \<not> is_node_check x) (dropWhile (\<lambda>x. x \<noteq> c) cs)"

definition before_traversal :: "call \<Rightarrow> call list \<Rightarrow> bool" where
  "before_traversal c cs \<longleftrightarrow>
     c \<in> set cs \<and> list_all (\<lambda>x. \<not> is_node_check x) (takeWhile (\<lambda>x. x \<noteq> c) cs)"

fun is_print :: "call \<Rightarrow> bool" where
  "is_print (CallPrintDocumentIssues p) = True"
| "is_print _ = False"

text \<open>
  The calls of \<open>testDocument\<close> up to the end of \<open>postChecks\<close>, for a document that
  \<open>Parse\<close> turned into \<open>d0\<close>.
\<close>

definition test_body :: "Checkers \<Rightarrow> Options \<Rightarrow> Document \<Rightarrow> Document \<Rightarrow> call list" where
  "test_body ck opt d d0 =
    (let p = docPath d;
         r1 = doctype_calls ck opt p d0;
         r2 = traverse ck opt p (NodesOfInterest (fst r1)) (fst r1)
     in CallParse p # snd r1 @ snd r2 @ postChecks opt p (fst r2))"

subsection \<open>Outcome of \<open>Test\<close>\<close>

text \<open>The run was aborted: by \<open>AbortWith\<close> with a message, or by a panic.\<close>

fun aborted :: "result \<Rightarrow> bool" where
  "aborted (Aborted msg) = (msg \<noteq> [])"
| "aborted Panicked = True"
| "aborted _ = False"

text \<open>
  The calls that come before any document is tested: opening and examining the root,
  discovery, and the lookup of the requested document.
\<close>

fun is_preflight :: "call \<Rightarrow> bool" where
  "is_preflight (CallOpen p) = True"
| "is_preflight (CallStat p) = True"
| "is_preflight (CallDiscover st) = True"
| "is_preflight (CallResolvePath p) = True"
| "is_preflight _ = False"

subsection \<open>Counting in the concurrent mode\<close>

text \<open>
  Tasks whose \<open>testDocument\<close> has panicked; tasks that have not yet run their deferred
  \<^verbatim>\<open>wg.Done()\<close>; tasks that left \<open>testDocument\<close> with calls still to make (there are
  none); the slot the main goroutine has put into the channel for the task it is about to
  start; and the \<^verbatim>\<open>wg.Add(1)\<close> it has done for that task.
\<close>

definition unreleased :: "cstate \<Rightarrow> nat" where
  "unreleased s = length (filter (\<lambda>t. phase t \<noteq> InTest \<and> ending t = Panics) (tasks s))"

definition alive :: "cstate \<Rightarrow> nat" where
  "alive s = length (filter (\<lambda>t. phase t \<noteq> Gone) (tasks s))"

definition stale :: "cstate \<Rightarrow> nat" where
  "stale s = length (filter (\<lambda>t. phase t \<noteq> InTest \<and> todo t \<noteq> []) (tasks s))"

definition main_holds :: "cstate \<Rightarrow> nat" where
  "main_holds s = (if mpc s = AtGo then 1 else 0)"

definition main_added :: "cstate \<Rightarrow> nat" where
  "main_added s = (if mpc s = AtLoop then 0 else 1)"

text \<open>The invariant of the concurrent mode, for a channel of capacity \<open>cap\<close>.\<close>

definition conc_inv :: "nat \<Rightarrow> cstate \<Rightarrow> bool" where
  "conc_inv cap s \<longleftrightarrow>
     chanFill s = executing s + unreleased s + main_holds s \<and> chanFill s \<le> cap \<and>
     wg s = alive s + main_added s \<and> stale s = 0"

text \<open>
  Every slot in the channel belongs to a task that is still executing, or to the task
  the main goroutine is about to start.
\<close>

definition slots_returned :: "cstate \<Rightarrow> bool" where
  "slots_returned s \<longleftrightarrow> chanFill s = executing s + main_holds s"




subsection \<open>The fetch limiter\<close>

text \<open>
  Modelled from the spec: \<^verbatim>\<open>htmltest.go\<close> creates the fetch limiter channel
  (\<open>httpChannel\<close>) but the code that uses it is elsewhere. The design document has every
  resolver acquire a token before its probe, blocking while the gate is saturated, and
  release it afterwards. \<open>gate_step cap n\<close> is the number of probes in flight after one
  such operation when \<open>n\<close> were in flight before; an operation that blocks changes
  nothing.
\<close>

datatype gate_op = Acquire | Release

fun gate_step :: "nat \<Rightarrow> nat \<Rightarrow> gate_op \<Rightarrow> nat" where
  "gate_step cap inflight Acquire = (if inflight < cap then inflight + 1 else inflight)"
| "gate_step cap inflight Release = (if 0 < inflight then inflight - 1 else inflight)"

definition probes_in_flight :: "nat \<Rightarrow> gate_op list \<Rightarrow> nat" where
  "probes_in_flight cap ops = foldl (gate_step cap) 0 ops"

section \<open>Example inputs\<close>

text \<open>
  Checkers that find nothing; a parser that panics; options with every check enabled; a
  document with one anchor and no favicon; and collaborators for a site directory
  \<open>site\<close> holding that document, whose \<open>setOptions\<close> takes \<open>FilePath\<close>,
  \<open>FileExtension\<close>, \<open>LogSort\<close> and \<open>NoRun\<close> from the user. \<open>ck_broken\<close> reports every
  anchor as broken, in an issue owned by the document.
\<close>

definition ck0 :: Checkers where
  "ck0 = \<lparr>Parse = Some, checkDoctype = (\<lambda>d. (d, [])), checkLink = (\<lambda>d n. (d, [])),
     checkImg = (\<lambda>d n. (d, [])), checkScript = (\<lambda>d n. (d, [])), checkMeta = (\<lambda>d n. (d, [])),
     checkGeneric = (\<lambda>d n a. (d, []))\<rparr>"

definition ck_panic :: Checkers where
  "ck_panic = ck0\<lparr>Parse := (\<lambda>d. None)\<rparr>"

definition ck_broken :: Checkers where
  "ck_broken = ck0\<lparr>checkLink := (\<lambda>d n.
     (d, [\<lparr>Level = LevelError, Message = ''target does not exist'',
           Document = Some (docPath d)\<rparr>]))\<rparr>"

definition opt0 :: Options where
  "opt0 = \<lparr>DirectoryPath = ''site'', DirectoryIndex = ''index.html'', FilePath = [],
     FileExtension = ''.html'', CheckDoctype = True, CheckAnchors = True, CheckLinks = True,
     CheckImages = True, CheckScripts = True, CheckMeta = True, CheckGeneric = True,
     CheckFavicon = True, IgnoreDirs = [], TestFilesConcurrently = False,
     DocumentConcurrencyLimit = 2, HTTPConcurrencyLimit = 4, LogLevel = 2,
     LogSort = ''seq'', ExternalTimeout = 15, EnableCache = False, EnableLog = False,
     CacheExpires = ''336h'', OutputDir = ''tmp'', OutputCacheFile = ''refcache.json'',
     OutputLogFile = ''htmltest.log'', NoRun = False\<rparr>"

definition doc0 :: Document where
  "doc0 = \<lparr>docPath = ''index.html'', NodesOfInterest = [\<lparr>Data = ''a'', Attr = []\<rparr>],
     State = \<lparr>FaviconPresent = False\<rparr>\<rparr>"

definition col0 :: Collab where
  "col0 = \<lparr>setOptions = (\<lambda>u. opt0
       \<lparr>FilePath := (case u ''FilePath'' of Some (VString s) \<Rightarrow> s | _ \<Rightarrow> []),
        FileExtension := (case u ''FileExtension'' of Some (VString s) \<Rightarrow> s | _ \<Rightarrow> ''.html''),
        LogSort := (case u ''LogSort'' of Some (VString s) \<Rightarrow> s | _ \<Rightarrow> ''seq''),
        NoRun := (case u ''NoRun'' of Some (VBool b) \<Rightarrow> b | _ \<Rightarrow> False)\<rparr>),
     pathJoin = (\<lambda>a b. a @ ''/'' @ b),
     probe = (\<lambda>p. if p = ''site'' then IsDir else NotExist),
     Discover = (\<lambda>st. [doc0]),
     ResolvePath = (\<lambda>st p. if p = docPath doc0 then Some doc0 else None)\<rparr>"


section \<open>The issue store\<close>

lemma issues_foldl_AddIssue:
  "issues (foldl (\<lambda>iS i. AddIssue i iS) iS is) = issues iS @ is"
  by (induction "is" arbitrary: iS) (simp_all add: AddIssue_def)

lemma issues_apply_call: "issues (apply_call iS c) = issues iS @ issues_in [c]"
  by (cases c) (simp_all add: AddIssue_def PrintDocumentIssues_def)

lemma issues_in_append: "issues_in (xs @ ys) = issues_in xs @ issues_in ys"
  by (induction xs rule: issues_in.induct) simp_all

lemma issues_run_calls: "issues (run_calls iS cs) = issues iS @ issues_in cs"
proof (induction cs arbitrary: iS)
  case Nil
  then show ?case by (simp add: run_calls_def)
next
  case (Cons c cs)
  have "issues_in (c # cs) = issues_in [c] @ issues_in cs"
    using issues_in_append [of "[c]" cs] by simp
  with Cons show ?case by (simp add: run_calls_def issues_apply_call)
qed

lemma printImmediately_apply_call: "printImmediately (apply_call iS c) = printImmediately iS"
  by (cases c) (simp_all add: AddIssue_def PrintDocumentIssues_def)

lemma printImmediately_run_calls: "printImmediately (run_calls iS cs) = printImmediately iS"
proof (induction cs arbitrary: iS)
  case Nil
  then show ?case by (simp add: run_calls_def)
next
  case (Cons c cs)
  then show ?case by (simp add: run_calls_def printImmediately_apply_call)
qed

lemma printed_apply_call:
  "\<not> is_print c \<Longrightarrow>
   printed (apply_call iS c) = printed iS @ (if printImmediately iS then issues_in [c] else [])"
  by (cases c) (simp_all add: AddIssue_def)

lemma printed_run_calls:
  "list_all (\<lambda>c. \<not> is_print c) cs \<Longrightarrow>
   printed (run_calls iS cs) = printed iS @ (if printImmediately iS then issues_in cs else [])"
proof (induction cs arbitrary: iS)
  case Nil
  then show ?case by (simp add: run_calls_def)
next
  case (Cons c cs)
  have split: "issues_in (c # cs) = issues_in [c] @ issues_in cs"
    using issues_in_append [of "[c]" cs] by simp
  have step: "run_calls iS (c # cs) = run_calls (apply_call iS c) cs"
    by (simp add: run_calls_def)
  from Cons.prems have c: "\<not> is_print c" and cs: "list_all (\<lambda>c. \<not> is_print c) cs"
    by simp_all
  show ?case
    unfolding step Cons.IH [OF cs] printed_apply_call [OF c] printImmediately_apply_call split
    by simp
qed

text \<open>
  C8. After any sequence of insertions into a new issue store, the store holds exactly
  the inserted issues, and \<open>CountErrors\<close> of a session with that store is the number of
  them whose level is \<open>LevelError\<close>.
\<close>

theorem CountErrors_counts_error_issues:
  "issues (foldl (\<lambda>iS i. AddIssue i iS) (NewIssueStore lvl imm) is) = is \<and>
   CountErrors (hT\<lparr>issueStore := foldl (\<lambda>iS i. AddIssue i iS) (NewIssueStore lvl imm) is\<rparr>)
     = int (length (filter (\<lambda>i. Level i = LevelError) is))"
  by (simp add: CountErrors_def Count_def issues_foldl_AddIssue NewIssueStore_def)

section \<open>One document\<close>

lemma dispatch_calls:
  "x \<in> set (snd (dispatch ck opt p n d)) \<Longrightarrow> is_node_check x \<or> (\<exists>i. x = CallAddIssue i)"
  by (auto simp: dispatch_def checked_def Let_def split: if_splits)

lemma traverse_calls:
  "x \<in> set (snd (traverse ck opt p ns d)) \<Longrightarrow> is_node_check x \<or> (\<exists>i. x = CallAddIssue i)"
proof (induction ns arbitrary: d)
  case Nil
  then show ?case by simp
next
  case (Cons n ns)
  then show ?case by (auto simp: Let_def dest: dispatch_calls)
qed

lemma doctype_calls_cases:
  "snd (doctype_calls ck opt p d0) =
     (if CheckDoctype opt
      then CallCheckDoctype p # map CallAddIssue (snd (checkDoctype ck d0)) else [])"
  by (simp add: doctype_calls_def checked_def)

lemma testDocument_calls:
  assumes "Parse ck d = Some d0"
  shows "testDocument ck opt d =
    (test_body ck opt d d0
       @ (if LogSort opt = ''document'' then [CallPrintDocumentIssues (docPath d)] else []),
     Returns)"
  using assms by (simp add: testDocument_def test_body_def Let_def)

lemma testDocument_body:
  "testDocument ck opt d = (cs, Returns) \<Longrightarrow>
   \<exists>d0. Parse ck d = Some d0 \<and>
     cs = test_body ck opt d d0
          @ (if LogSort opt = ''document'' then [CallPrintDocumentIssues (docPath d)] else [])"
  by (auto simp: testDocument_def test_body_def Let_def split: option.splits)

lemma testDocument_never_blocks: "snd (testDocument ck opt d) \<noteq> Blocks"
  by (simp add: testDocument_def Let_def split: option.splits)

lemma dropWhile_skip:
  "c \<notin> set xs \<Longrightarrow> dropWhile (\<lambda>x. x \<noteq> c) (xs @ c # ys) = c # ys"
  by (induction xs) auto

lemma takeWhile_skip:
  "c \<notin> set xs \<Longrightarrow> takeWhile (\<lambda>x. x \<noteq> c) (xs @ c # ys) = xs"
  by (induction xs) auto

text \<open>
  C3, as amended. For every document that parses, \<open>postChecks\<close> (the favicon presence
  check) is entered after the traversal of the node list is over, and what it does from
  there on is decided by the document state that the doctype check and the per-node
  checkers have left behind. The doctype check, when enabled, is not a post-traversal
  check: it is called right after \<open>Parse\<close>, before any node is visited.
\<close>

theorem favicon_after_doctype_before:
  assumes "Parse ck d = Some d0"
  shows "(let p = docPath d;
              cs = fst (testDocument ck opt d);
              r1 = doctype_calls ck opt p d0;
              r2 = traverse ck opt p (NodesOfInterest (fst r1)) (fst r1)
          in after_traversal (CallPostChecks p) cs
           \<and> dropWhile (\<lambda>x. x \<noteq> CallPostChecks p) cs
               = postChecks opt p (fst r2)
                 @ (if LogSort opt = ''document'' then [CallPrintDocumentIssues p] else [])
           \<and> (CheckDoctype opt \<longrightarrow>
                before_traversal (CallCheckDoctype p) cs
                \<and> takeWhile (\<lambda>x. x \<noteq> CallCheckDoctype p) cs = [CallParse p]))"
proof -
  define p where "p = docPath d"
  define r1 where "r1 = doctype_calls ck opt p d0"
  define r2 where "r2 = traverse ck opt p (NodesOfInterest (fst r1)) (fst r1)"
  define pr where "pr = (if LogSort opt = ''document'' then [CallPrintDocumentIssues p] else [])"
  define pre where "pre = CallParse p # snd r1 @ snd r2"
  define cs where "cs = fst (testDocument ck opt d)"
  have cs: "cs = pre @ postChecks opt p (fst r2) @ pr"
    using testDocument_calls [OF assms, of opt]
    by (simp add: cs_def test_body_def Let_def p_def r1_def r2_def pr_def pre_def)
  have pc: "postChecks opt p (fst r2) = CallPostChecks p # List.tl (postChecks opt p (fst r2))"
    by (simp add: postChecks_def)
  have notin: "CallPostChecks p \<notin> set pre"
    using traverse_calls [of "CallPostChecks p" ck opt p "NodesOfInterest (fst r1)" "fst r1"]
    by (auto simp: pre_def r1_def r2_def doctype_calls_cases)
  have dw: "dropWhile (\<lambda>x. x \<noteq> CallPostChecks p) cs = postChecks opt p (fst r2) @ pr"
    using dropWhile_skip [OF notin, of "List.tl (postChecks opt p (fst r2)) @ pr"] pc cs
    by (metis append_Cons)
  have nochk: "list_all (\<lambda>x. \<not> is_node_check x) (postChecks opt p (fst r2) @ pr)"
    by (simp add: postChecks_def pr_def)
  have mem: "CallPostChecks p \<in> set cs"
    using cs pc by (metis in_set_conv_decomp append_Cons append_assoc)
  have a: "after_traversal (CallPostChecks p) cs"
    unfolding after_traversal_def using mem dw nochk by simp
  have b: "before_traversal (CallCheckDoctype p) cs
           \<and> takeWhile (\<lambda>x. x \<noteq> CallCheckDoctype p) cs = [CallParse p]"
    if "CheckDoctype opt"
  proof -
    have "cs = [CallParse p] @ CallCheckDoctype p #
             (map CallAddIssue (snd (checkDoctype ck d0)) @ snd r2
               @ postChecks opt p (fst r2) @ pr)"
      using cs that by (simp add: pre_def r1_def doctype_calls_cases)
    moreover have "CallCheckDoctype p \<notin> set [CallParse p]" by simp
    ultimately have tw: "takeWhile (\<lambda>x. x \<noteq> CallCheckDoctype p) cs = [CallParse p]"
      and m: "CallCheckDoctype p \<in> set cs"
      using takeWhile_skip [of "CallCheckDoctype p" "[CallParse p]"] by simp_all
    show ?thesis unfolding before_traversal_def using tw m by simp
  qed
  show ?thesis
    using a b dw
    unfolding Let_def p_def [symmetric] r1_def [symmetric] r2_def [symmetric]
      pr_def [symmetric] cs_def [symmetric]
    by blast
qed

theorem favicon_after_doctype_before_witness:
  "Parse ck0 doc0 = Some doc0
   \<and> after_traversal (CallPostChecks ''index.html'') (fst (testDocument ck0 opt0 doc0))
   \<and> before_traversal (CallCheckDoctype ''index.html'') (fst (testDocument ck0 opt0 doc0))
   \<and> dropWhile (\<lambda>x. x \<noteq> CallPostChecks ''index.html'') (fst (testDocument ck0 opt0 doc0))
       = [CallPostChecks ''index.html'', CallAddIssue favicon_missing]"
proof -
  have p: "Parse ck0 doc0 = Some doc0" by (simp add: ck0_def)
  have d: "docPath doc0 = ''index.html''" and c: "CheckDoctype opt0"
    and l: "LogSort opt0 \<noteq> ''document''"
    by (simp_all add: doc0_def opt0_def)
  have t: "fst (traverse ck0 opt0 ''index.html''
             (NodesOfInterest (fst (doctype_calls ck0 opt0 ''index.html'' doc0)))
             (fst (doctype_calls ck0 opt0 ''index.html'' doc0))) = doc0"
    by (simp add: doctype_calls_def checked_def ck0_def opt0_def doc0_def dispatch_def Let_def)
  have f: "postChecks opt0 ''index.html'' doc0
             = [CallPostChecks ''index.html'', CallAddIssue favicon_missing]"
    by (simp add: postChecks_def opt0_def doc0_def)
  from favicon_after_doctype_before [OF p, of opt0] p d c l t f
  show ?thesis by (simp add: Let_def)
qed

text \<open>
  C3, counterexample. A document with one anchor, every check enabled: the doctype
  check is followed by the check of the anchor, so it is not made after the traversal.
\<close>

theorem doctype_not_after_traversal:
  "fst (testDocument ck0 opt0 doc0)
     = [CallParse ''index.html'', CallCheckDoctype ''index.html'',
        CallCheckLink ''index.html'' \<lparr>Data = ''a'', Attr = []\<rparr>,
        CallPostChecks ''index.html'', CallAddIssue favicon_missing]
   \<and> \<not> after_traversal (CallCheckDoctype ''index.html'') (fst (testDocument ck0 opt0 doc0))"
  by (simp add: after_traversal_def testDocument_def doctype_calls_def ck0_def opt0_def
      doc0_def dispatch_def checked_def postChecks_def Let_def)


section \<open>Printing of issues\<close>

lemma traverse_no_print: "list_all (\<lambda>c. \<not> is_print c) (snd (traverse ck opt p ns d))"
  unfolding list_all_iff using traverse_calls [of _ ck opt p ns d]
  by (metis is_node_check.elims(2) is_print.simps)

lemma doctype_no_print: "list_all (\<lambda>c. \<not> is_print c) (snd (doctype_calls ck opt p d0))"
  by (simp add: doctype_calls_cases list_all_iff) auto

lemma test_body_no_print: "list_all (\<lambda>c. \<not> is_print c) (test_body ck opt d d0)"
  by (simp add: test_body_def Let_def traverse_no_print doctype_no_print postChecks_def)

lemma list_all_take: "list_all P xs \<Longrightarrow> list_all P (take k xs)"
  by (auto simp: list_all_iff dest: in_set_takeD)

lemma newSession_opts: "newSession col u = Some hT \<Longrightarrow> opts hT = setOptions col u"
  by (auto simp: newSession_def Let_def split: option.splits)

lemma newSession_store:
  "newSession col u = Some hT \<Longrightarrow>
   issueStore hT = NewIssueStore (LogLevel (opts hT)) (LogSort (opts hT) = ''seq'')"
  by (auto simp: newSession_def Let_def split: option.splits)

text \<open>
  C7. The issue store of a session is created printing immediately exactly when
  \<open>LogSort\<close> is \<open>seq\<close>. Whatever has happened in the session before (\<open>pre\<close>), during a
  document test that returns: under \<open>seq\<close>, at every point of the test the issues it has
  inserted so far have been printed, in insertion order; under \<open>document\<close>, nothing is
  printed until the last call of the test, which is \<open>PrintDocumentIssues\<close> for the
  document and prints the stored issues of that document as one block.
\<close>

theorem LogSort_decides_printing:
  assumes ses: "newSession col u = Some hT"
    and run: "testDocument ck (opts hT) d = (cs, Returns)"
  shows "(let iS = run_calls (issueStore hT) pre in
          (LogSort (opts hT) = ''seq'' \<longrightarrow>
             printImmediately (issueStore hT) \<and>
             (\<forall>k. printed (run_calls iS (take k cs)) = printed iS @ issues_in (take k cs)))
        \<and> (LogSort (opts hT) = ''document'' \<longrightarrow>
             \<not> printImmediately (issueStore hT) \<and>
             (\<forall>k<length cs. printed (run_calls iS (take k cs)) = printed iS) \<and>
             last cs = CallPrintDocumentIssues (docPath d) \<and>
             printed (run_calls iS cs)
               = printed iS
                 @ filter (\<lambda>i. Document i = Some (docPath d)) (issues (run_calls iS cs))))"
proof -
  define iS where "iS = run_calls (issueStore hT) pre"
  have imm: "printImmediately iS = (LogSort (opts hT) = ''seq'')"
    by (simp add: iS_def printImmediately_run_calls newSession_store [OF ses] NewIssueStore_def)
  have imm0: "printImmediately (issueStore hT) = (LogSort (opts hT) = ''seq'')"
    by (simp add: newSession_store [OF ses] NewIssueStore_def)
  from testDocument_body [OF run] obtain d0 where
    cs: "cs = test_body ck (opts hT) d d0
          @ (if LogSort (opts hT) = ''document''
             then [CallPrintDocumentIssues (docPath d)] else [])"
    by blast
  define body where "body = test_body ck (opts hT) d d0"
  have np: "list_all (\<lambda>c. \<not> is_print c) body"
    by (simp add: body_def test_body_no_print)
  have seq: "printed (run_calls iS (take k cs)) = printed iS @ issues_in (take k cs)"
    if "LogSort (opts hT) = ''seq''" for k
  proof -
    have "cs = body" using cs that by (simp add: body_def)
    then show ?thesis
      using printed_run_calls [of "take k body" iS, OF list_all_take [OF np]] imm that
      by simp
  qed
  have doc: "(\<forall>k<length cs. printed (run_calls iS (take k cs)) = printed iS) \<and>
             last cs = CallPrintDocumentIssues (docPath d) \<and>
             printed (run_calls iS cs)
               = printed iS
                 @ filter (\<lambda>i. Document i = Some (docPath d)) (issues (run_calls iS cs))"
    if ld: "LogSort (opts hT) = ''document''"
  proof -
    have cs': "cs = body @ [CallPrintDocumentIssues (docPath d)]"
      using cs ld by (simp add: body_def)
    have nimm: "\<not> printImmediately iS" using imm ld by simp
    have quiet: "printed (run_calls iS (take k cs)) = printed iS" if "k < length cs" for k
    proof -
      from that have "take k cs = take k body" by (simp add: cs')
      then show ?thesis
        using printed_run_calls [of "take k body" iS, OF list_all_take [OF np]] nimm
        by simp
    qed
    have pb: "printed (run_calls iS body) = printed iS"
      using printed_run_calls [of body iS, OF np] nimm by simp
    have "run_calls iS cs = PrintDocumentIssues (docPath d) (run_calls iS body)"
      by (simp add: cs' run_calls_def)
    then have "printed (run_calls iS cs)
        = printed iS @ filter (\<lambda>i. Document i = Some (docPath d)) (issues (run_calls iS cs))"
      by (simp add: PrintDocumentIssues_def pb)
    with quiet show ?thesis by (simp add: cs')
  qed
  show ?thesis
    unfolding Let_def iS_def [symmetric] using seq doc imm0 by auto
qed

theorem LogSort_decides_printing_witness:
  "(\<exists>hT. newSession col0 [''LogSort'' \<mapsto> VString ''document''] = Some hT
      \<and> LogSort (opts hT) = ''document''
      \<and> snd (testDocument ck_broken (opts hT) doc0) = Returns
      \<and> issues (run_calls (issueStore hT) (fst (testDocument ck_broken (opts hT) doc0)))
          = [\<lparr>Level = LevelError, Message = ''target does not exist'',
              Document = Some ''index.html''\<rparr>, favicon_missing]
      \<and> printed (run_calls (issueStore hT) (fst (testDocument ck_broken (opts hT) doc0)))
          = [\<lparr>Level = LevelError, Message = ''target does not exist'',
              Document = Some ''index.html''\<rparr>])"
proof -
  let ?u = "[''LogSort'' \<mapsto> VString ''document'']"
  let ?b = "\<lparr>Level = LevelError, Message = ''target does not exist'',
              Document = Some ''index.html''\<rparr>"
  have so: "setOptions col0 ?u = opt0\<lparr>LogSort := ''document''\<rparr>"
    by (simp add: col0_def opt0_def)
  obtain hT where h: "newSession col0 ?u = Some hT"
    by (simp add: newSession_def so opt0_def make_chan_def Let_def)
  have o: "opts hT = opt0\<lparr>LogSort := ''document''\<rparr>"
    using newSession_opts [OF h] so by simp
  have ls: "LogSort (opts hT) = ''document''" by (simp add: o)
  define cs where "cs = fst (testDocument ck_broken (opts hT) doc0)"
  have csv: "cs = [CallParse ''index.html'', CallCheckDoctype ''index.html'',
        CallCheckLink ''index.html'' \<lparr>Data = ''a'', Attr = []\<rparr>, CallAddIssue ?b,
        CallPostChecks ''index.html'', CallAddIssue favicon_missing,
        CallPrintDocumentIssues ''index.html'']"
    and r: "snd (testDocument ck_broken (opts hT) doc0) = Returns"
    by (simp_all add: cs_def o testDocument_def doctype_calls_def ck_broken_def ck0_def
        opt0_def doc0_def dispatch_def checked_def postChecks_def Let_def)
  have run: "testDocument ck_broken (opts hT) doc0 = (cs, Returns)"
    using r by (simp add: cs_def prod_eq_iff)
  have st: "issueStore hT = NewIssueStore 2 False"
    using newSession_store [OF h] by (simp add: o opt0_def)
  have iss: "issues (run_calls (issueStore hT) cs) = [?b, favicon_missing]"
    by (simp add: issues_run_calls st NewIssueStore_def csv)
  have own: "filter (\<lambda>i. Document i = Some (docPath doc0)) [?b, favicon_missing] = [?b]"
    by (simp add: doc0_def favicon_missing_def)
  from LogSort_decides_printing [OF h run, of "[]"] ls iss own
  have "printed (run_calls (issueStore hT) cs) = [?b]"
    by (simp add: Let_def run_calls_def st NewIssueStore_def)
  with h ls r iss show ?thesis unfolding cs_def by blast
qed

section \<open>\<open>Test\<close>\<close>

lemma path_Ext_examples:
  "path_Ext ''index.html'' = ''.html''"
  "path_Ext ''docs/archive.tar.gz'' = ''.gz''"
  "path_Ext ''docs.d/readme'' = []"
  "path_Ext ''notes.'' = ''.''"
  "path_Ext [] = []"
  by (simp_all add: path_Ext_def)

text \<open>
  A plain run over the example site: the root is examined, the one document is
  discovered and tested, and the returned session counts one error, the missing favicon,
  which was printed at insertion.
\<close>

lemma Test_example:
  "snd (Test col0 ck0 [] Map.empty)
     = [CallOpen ''site'', CallStat ''site'', CallDiscover (configuredStore opt0),
        CallParse ''index.html'', CallCheckDoctype ''index.html'',
        CallCheckLink ''index.html'' \<lparr>Data = ''a'', Attr = []\<rparr>,
        CallPostChecks ''index.html'', CallAddIssue favicon_missing]
   \<and> (\<exists>hT. fst (Test col0 ck0 [] Map.empty) = Returned hT
         \<and> CountErrors hT = 1 \<and> CountDocuments hT = 1
         \<and> printed (issueStore hT) = [favicon_missing])"
proof -
  have so: "setOptions col0 Map.empty = opt0" by (simp add: col0_def opt0_def)
  obtain hT where h: "newSession col0 Map.empty = Some hT"
    by (simp add: newSession_def so opt0_def make_chan_def Let_def)
  have o: "opts hT = opt0" using newSession_opts [OF h] so by simp
  have st: "issueStore hT = NewIssueStore 2 True"
    using newSession_store [OF h] by (simp add: o opt0_def)
  have td: "testDocument ck0 opt0 doc0
      = ([CallParse ''index.html'', CallCheckDoctype ''index.html'',
          CallCheckLink ''index.html'' \<lparr>Data = ''a'', Attr = []\<rparr>,
          CallPostChecks ''index.html'', CallAddIssue favicon_missing], Returns)"
    by (simp add: testDocument_def doctype_calls_def ck0_def opt0_def doc0_def dispatch_def
        checked_def postChecks_def Let_def)
  have tds: "testDocuments ck0 opt0 [] [doc0] = testDocument ck0 opt0 doc0"
    by (simp add: testDocuments_def td) (simp add: opt0_def)
  have pr: "probe col0 ''site'' = IsDir" "FilePath opt0 = []"
    "DirectoryPath opt0 = ''site''" "\<not> NoRun opt0" "\<not> EnableCache opt0" "\<not> EnableLog opt0"
    "Documents (discoveredStore col0 opt0) = [doc0]"
    by (simp_all add: opt0_def col0_def discoveredStore_def)
  have "Test col0 ck0 [] Map.empty = runTests col0 ck0 [] hT"
    by (simp add: Test_def setFileExtension_def h o pr)
  also have "\<dots> = finishRun col0 (hT\<lparr>documentStore := discoveredStore col0 opt0\<rparr>)
      ([CallOpen ''site'', CallStat ''site'', CallDiscover (configuredStore opt0)]
        @ fst (testDocument ck0 opt0 doc0))"
    by (simp add: runTests_def o pr tds td Let_def)
  finally show ?thesis
    by (simp add: finishRun_def o pr td st Let_def CountErrors_def Count_def CountDocuments_def
        run_calls_def NewIssueStore_def AddIssue_def favicon_missing_def)
qed

lemma setFileExtension_FilePath:
  "optsUser ''FilePath'' = Some (VString p) \<Longrightarrow>
   setFileExtension optsUser = Some (optsUser(''FileExtension'' \<mapsto> VString (path_Ext p)))"
  by (simp add: setFileExtension_def)

lemma runTests_IsDir_prefix:
  "probe col (DirectoryPath (opts hT)) = IsDir \<Longrightarrow>
   take 3 (snd (runTests col ck sched hT))
     = [CallOpen (DirectoryPath (opts hT)), CallStat (DirectoryPath (opts hT)),
        CallDiscover (configuredStore (opts hT))]"
  by (simp add: runTests_def finishRun_def Let_def split: option.splits outcome.splits)

text \<open>
  The session that \<open>Test\<close> returns holds exactly the issues that were added during
  the run, so \<open>CountErrors\<close> counts the error-level issues among them.
\<close>

lemma finishRun_issues:
  "finishRun col hT tr = (Returned hT', tr') \<Longrightarrow>
   issues (issueStore hT') = issues (issueStore hT) @ issues_in tr'"
  by (auto simp: finishRun_def Let_def issues_run_calls)

lemma runTests_issues:
  assumes "runTests col ck sched hT = (Returned hT', tr)"
  shows "issues (issueStore hT') = issues (issueStore hT) @ issues_in tr"
proof -
  from assms obtain hT1 tr1 where f: "finishRun col hT1 tr1 = (Returned hT', tr)"
    and s: "issueStore hT1 = issueStore hT"
    by (auto simp: runTests_def Let_def
        split: fs_probe.splits option.splits if_splits outcome.splits)
  from finishRun_issues [OF f] s show ?thesis by simp
qed

lemma Test_issues:
  assumes "Test col ck sched optsUser = (Returned hT, tr)"
  shows "issues (issueStore hT) = issues_in tr
       \<and> CountErrors hT = int (length (filter (\<lambda>i. Level i = LevelError) (issues_in tr)))"
proof -
  from assms obtain u hT0 where u: "setFileExtension optsUser = Some u"
    and h: "newSession col u = Some hT0"
    by (auto simp: Test_def split: option.splits)
  have e: "issues (issueStore hT0) = []"
    using newSession_store [OF h] by (simp add: NewIssueStore_def)
  have "issues (issueStore hT) = issues_in tr"
  proof (cases "NoRun (opts hT0)")
    case True
    with assms u h e show ?thesis by (simp add: Test_def)
  next
    case False
    with assms u h have "runTests col ck sched hT0 = (Returned hT, tr)"
      by (simp add: Test_def)
    from runTests_issues [OF this] e show ?thesis by simp
  qed
  then show ?thesis by (simp add: CountErrors_def Count_def)
qed

text \<open>
  C9. When the user's options hold a path under \<open>FilePath\<close>, the options handed to
  \<open>setOptions\<close> carry the extension of that path (by \<open>path.Ext\<close>) under
  \<open>FileExtension\<close>; a \<open>FileExtension\<close> supplied by the user changes neither these
  options nor anything else \<open>Test\<close> does; and when the run reaches discovery, the store
  that \<open>Discover\<close> is called on filters by the \<open>FileExtension\<close> of the options merged
  from them.
\<close>

theorem FilePath_overrides_FileExtension:
  assumes fp: "optsUser ''FilePath'' = Some (VString p)"
  shows "setFileExtension optsUser
           = Some (optsUser(''FileExtension'' \<mapsto> VString (path_Ext p)))
       \<and> setFileExtension (optsUser(''FileExtension'' \<mapsto> v)) = setFileExtension optsUser
       \<and> Test col ck sched (optsUser(''FileExtension'' \<mapsto> v)) = Test col ck sched optsUser
       \<and> (\<forall>hT. newSession col (optsUser(''FileExtension'' \<mapsto> VString (path_Ext p))) = Some hT
               \<and> \<not> NoRun (opts hT) \<and> probe col (DirectoryPath (opts hT)) = IsDir
             \<longrightarrow> (\<exists>st. snd (Test col ck sched optsUser) ! 2 = CallDiscover st
                    \<and> DocumentExtension st
                        = FileExtension
                            (setOptions col
                               (optsUser(''FileExtension'' \<mapsto> VString (path_Ext p))))))"
proof -
  let ?u = "optsUser(''FileExtension'' \<mapsto> VString (path_Ext p))"
  have a: "setFileExtension optsUser = Some ?u"
    using fp by (rule setFileExtension_FilePath)
  have "(optsUser(''FileExtension'' \<mapsto> v)) ''FilePath'' = Some (VString p)"
    using fp by simp
  from setFileExtension_FilePath
         [where optsUser = "optsUser(''FileExtension'' \<mapsto> v)" and p = p, OF this]
  have b: "setFileExtension (optsUser(''FileExtension'' \<mapsto> v)) = Some ?u" by simp
  have c: "Test col ck sched (optsUser(''FileExtension'' \<mapsto> v)) = Test col ck sched optsUser"
    by (simp add: Test_def a b)
  have d: "\<exists>st. snd (Test col ck sched optsUser) ! 2 = CallDiscover st
                    \<and> DocumentExtension st = FileExtension (setOptions col ?u)"
    if h: "newSession col ?u = Some hT" and n: "\<not> NoRun (opts hT)"
      and pr: "probe col (DirectoryPath (opts hT)) = IsDir" for hT
  proof -
    have T: "Test col ck sched optsUser = runTests col ck sched hT"
      using a h n by (simp add: Test_def)
    have o: "opts hT = setOptions col ?u"
      using h by (rule newSession_opts)
    have "take 3 (snd (runTests col ck sched hT)) ! 2 = CallDiscover (configuredStore (opts hT))"
      unfolding runTests_IsDir_prefix [OF pr] by simp
    then have "snd (runTests col ck sched hT) ! 2 = CallDiscover (configuredStore (opts hT))"
      by simp
    then show ?thesis
      unfolding T o by (simp add: configuredStore_def)
  qed
  have e: "setFileExtension (optsUser(''FileExtension'' \<mapsto> v)) = setFileExtension optsUser"
    using a b by simp
  from d have d': "\<forall>hT. newSession col ?u = Some hT
               \<and> \<not> NoRun (opts hT) \<and> probe col (DirectoryPath (opts hT)) = IsDir
             \<longrightarrow> (\<exists>st. snd (Test col ck sched optsUser) ! 2 = CallDiscover st
                    \<and> DocumentExtension st = FileExtension (setOptions col ?u))"
    by blast
  from a e c d' show ?thesis by (intro conjI)
qed

theorem FilePath_overrides_FileExtension_witness:
  "[''FilePath'' \<mapsto> VString ''index.htm'', ''FileExtension'' \<mapsto> VString ''.html''] ''FilePath''
      = Some (VString ''index.htm'')
   \<and> path_Ext ''index.htm'' = ''.htm''
   \<and> setFileExtension
        [''FilePath'' \<mapsto> VString ''index.htm'', ''FileExtension'' \<mapsto> VString ''.html'']
      = Some [''FilePath'' \<mapsto> VString ''index.htm'', ''FileExtension'' \<mapsto> VString ''.htm'']
   \<and> Test col0 ck0 []
        [''FilePath'' \<mapsto> VString ''index.htm'', ''FileExtension'' \<mapsto> VString ''.php'']
      = Test col0 ck0 []
          [''FilePath'' \<mapsto> VString ''index.htm'', ''FileExtension'' \<mapsto> VString ''.html'']
   \<and> (\<exists>st. snd (Test col0 ck0 []
           [''FilePath'' \<mapsto> VString ''index.htm'', ''FileExtension'' \<mapsto> VString ''.html'']) ! 2
          = CallDiscover st \<and> DocumentExtension st = ''.htm'')"
proof -
  let ?o = "[''FilePath'' \<mapsto> VString ''index.htm'', ''FileExtension'' \<mapsto> VString ''.html'']"
  let ?u = "[''FilePath'' \<mapsto> VString ''index.htm'', ''FileExtension'' \<mapsto> VString ''.htm'']"
  have fp: "?o ''FilePath'' = Some (VString ''index.htm'')" by simp
  have e: "path_Ext ''index.htm'' = ''.htm''" by (simp add: path_Ext_def)
  have u: "?o(''FileExtension'' \<mapsto> VString ''.htm'') = ?u" by simp
  have v: "?o(''FileExtension'' \<mapsto> VString ''.php'')
             = [''FilePath'' \<mapsto> VString ''index.htm'', ''FileExtension'' \<mapsto> VString ''.php'']"
    by simp
  have so: "setOptions col0 ?u = opt0\<lparr>FilePath := ''index.htm'', FileExtension := ''.htm''\<rparr>"
    by (simp add: col0_def opt0_def)
  obtain hT where h: "newSession col0 ?u = Some hT"
    by (simp add: newSession_def so opt0_def make_chan_def Let_def)
  have o: "opts hT = opt0\<lparr>FilePath := ''index.htm'', FileExtension := ''.htm''\<rparr>"
    using newSession_opts [OF h] so by simp
  have n: "\<not> NoRun (opts hT)" and pr: "probe col0 (DirectoryPath (opts hT)) = IsDir"
    by (simp_all add: o opt0_def col0_def)
  note inst = FilePath_overrides_FileExtension
         [where optsUser = ?o and p = "''index.htm''" and v = "VString ''.php''"
            and col = col0 and ck = ck0 and sched = "[]", OF fp]
  from inst have t1: "setFileExtension ?o = Some ?u" unfolding e u by blast
  from inst have t2: "Test col0 ck0 [] (?o(''FileExtension'' \<mapsto> VString ''.php''))
                       = Test col0 ck0 [] ?o" by blast
  from inst h n pr have "\<exists>st. snd (Test col0 ck0 [] ?o) ! 2 = CallDiscover st
      \<and> DocumentExtension st = FileExtension (setOptions col0 ?u)"
    unfolding e u by blast
  then have t3: "\<exists>st. snd (Test col0 ck0 [] ?o) ! 2 = CallDiscover st
      \<and> DocumentExtension st = ''.htm''"
    by (simp add: so)
  from fp e t1 t2 t3 show ?thesis unfolding v by blast
qed

text \<open>
  C10. When the merged options have \<open>NoRun\<close> set (and the session could be
  constructed: \<open>FilePath\<close>, if given, is a string, and the channel size is not
  negative), \<open>Test\<close> returns the session as constructed and has made no call at all:
  the root is not opened or examined, nothing is discovered or tested, no issue is
  added, and neither the cache nor the log is written. The returned session has an
  empty document store and an issue store without issues or output.
\<close>

theorem NoRun_returns_untouched:
  assumes "setFileExtension optsUser = Some u"
    and "newSession col u = Some hT"
    and "NoRun (opts hT)"
  shows "Test col ck sched optsUser = (Returned hT, [])
       \<and> documentStore hT = emptyDocumentStore
       \<and> issues (issueStore hT) = [] \<and> printed (issueStore hT) = []"
  using assms
  by (auto simp: Test_def newSession_def NewIssueStore_def Let_def split: option.splits)

theorem NoRun_returns_untouched_witness:
  "setFileExtension [''NoRun'' \<mapsto> VBool True] = Some [''NoRun'' \<mapsto> VBool True]
   \<and> NoRun (setOptions col0 [''NoRun'' \<mapsto> VBool True])
   \<and> snd (Test col0 ck0 [] [''NoRun'' \<mapsto> VBool True]) = []
   \<and> (\<exists>hT. fst (Test col0 ck0 [] [''NoRun'' \<mapsto> VBool True]) = Returned hT
           \<and> issues (issueStore hT) = [] \<and> Documents (documentStore hT) = [])"
proof -
  let ?u = "[''NoRun'' \<mapsto> VBool True]"
  have a: "setFileExtension ?u = Some ?u" by (simp add: setFileExtension_def)
  have n: "NoRun (setOptions col0 ?u)" by (simp add: col0_def)
  obtain hT where h: "newSession col0 ?u = Some hT"
    by (simp add: newSession_def col0_def opt0_def make_chan_def Let_def)
  have n': "NoRun (opts hT)" using n newSession_opts [OF h] by simp
  from NoRun_returns_untouched [OF a h n', of ck0 "[]"] a n show ?thesis
    by (simp add: emptyDocumentStore_def)
qed

text \<open>
  C5. When \<open>NoRun\<close> is not set and the root path does not exist, cannot be read, is a
  file rather than a directory, or the requested single document is not found in the
  store, \<open>Test\<close> ends aborted (by \<open>AbortWith\<close> with a message, or by the panic of
  \<open>CheckErrorPanic\<close>) and every call it has made is a pre-flight call: no document was
  parsed or checked, no issue was added, nothing was printed or written.
\<close>

theorem fatal_preflight_aborts:
  assumes "setFileExtension optsUser = Some u"
    and "\<not> NoRun (setOptions col u)"
    and "probe col (DirectoryPath (setOptions col u)) \<noteq> IsDir
         \<or> (FilePath (setOptions col u) \<noteq> []
            \<and> ResolvePath col (discoveredStore col (setOptions col u))
                 (FilePath (setOptions col u)) = None)"
  shows "aborted (fst (Test col ck sched optsUser))
       \<and> list_all is_preflight (snd (Test col ck sched optsUser))"
proof (cases "newSession col u")
  case None
  with assms(1) show ?thesis by (simp add: Test_def)
next
  case (Some hT)
  have o: "opts hT = setOptions col u" using Some by (rule newSession_opts)
  have T: "Test col ck sched optsUser = runTests col ck sched hT"
    using assms(1,2) Some o by (simp add: Test_def)
  show ?thesis
  proof (cases "probe col (DirectoryPath (opts hT))")
    case IsDir
    with assms(3) have "FilePath (opts hT) \<noteq> []"
      and "ResolvePath col (discoveredStore col (opts hT)) (FilePath (opts hT)) = None"
      by (simp_all add: o)
    with IsDir show ?thesis
      unfolding T by (simp add: runTests_def Let_def)
  qed (simp_all add: T runTests_def Let_def)
qed

theorem fatal_preflight_aborts_witness:
  "setFileExtension [''FilePath'' \<mapsto> VString ''missing.html'']
     = Some [''FilePath'' \<mapsto> VString ''missing.html'', ''FileExtension'' \<mapsto> VString ''.html'']
   \<and> Test col0 ck0 [] [''FilePath'' \<mapsto> VString ''missing.html'']
     = (Aborted [''Could not find document'', ''missing.html'', ''in'', ''site''],
        [CallOpen ''site'', CallStat ''site'',
         CallDiscover (configuredStore (opt0\<lparr>FilePath := ''missing.html''\<rparr>)),
         CallResolvePath ''missing.html''])
   \<and> aborted (fst (Test col0 ck0 [] [''FilePath'' \<mapsto> VString ''missing.html'']))
   \<and> list_all is_preflight (snd (Test col0 ck0 [] [''FilePath'' \<mapsto> VString ''missing.html'']))"
proof -
  let ?o = "[''FilePath'' \<mapsto> VString ''missing.html'']"
  let ?u = "[''FilePath'' \<mapsto> VString ''missing.html'', ''FileExtension'' \<mapsto> VString ''.html'']"
  have a: "setFileExtension ?o = Some ?u"
    by (simp add: setFileExtension_def path_Ext_def)
  have so: "setOptions col0 ?u = opt0\<lparr>FilePath := ''missing.html''\<rparr>"
    by (simp add: col0_def opt0_def)
  obtain hT where h: "newSession col0 ?u = Some hT"
    by (simp add: newSession_def so opt0_def make_chan_def Let_def)
  have o: "opts hT = opt0\<lparr>FilePath := ''missing.html''\<rparr>"
    using newSession_opts [OF h] so by simp
  have n: "\<not> NoRun (setOptions col0 ?u)" by (simp add: so opt0_def)
  have f: "probe col0 (DirectoryPath (setOptions col0 ?u)) \<noteq> IsDir
         \<or> (FilePath (setOptions col0 ?u) \<noteq> []
            \<and> ResolvePath col0 (discoveredStore col0 (setOptions col0 ?u))
                 (FilePath (setOptions col0 ?u)) = None)"
    by (simp add: so) (simp add: opt0_def col0_def doc0_def)
  have T: "Test col0 ck0 [] ?o
     = (Aborted [''Could not find document'', ''missing.html'', ''in'', ''site''],
        [CallOpen ''site'', CallStat ''site'',
         CallDiscover (configuredStore (opt0\<lparr>FilePath := ''missing.html''\<rparr>)),
         CallResolvePath ''missing.html''])"
    by (simp add: Test_def a h o runTests_def Let_def) (simp add: opt0_def col0_def doc0_def)
  from fatal_preflight_aborts [OF a n f, of ck0 "[]"] a T show ?thesis by simp
qed


section \<open>The concurrent mode\<close>

subsection \<open>Steps of a task\<close>

lemmas counts_defs =
  executing_def unreleased_def alive_def stale_def main_holds_def main_added_def

lemma count_update:
  "i < length xs \<Longrightarrow>
   length (filter P (xs[i := y])) + (if P (xs ! i) then 1 else 0)
     = length (filter P xs) + (if P y then 1 else 0)"
proof (induction xs arbitrary: i)
  case Nil
  then show ?case by simp
next
  case (Cons x xs)
  then show ?case by (cases i) auto
qed

lemma task_step_cases [consumes 0, case_names idle crash call release panic wgdone]:
  obtains "task_step i s = s"
  | "task_step i s = s\<lparr>crashed := True\<rparr>"
  | c cs where "i < length (tasks s)" "phase (tasks s ! i) = InTest"
      "todo (tasks s ! i) = c # cs"
      "task_step i s = s\<lparr>tasks := (tasks s)[i := (tasks s ! i)\<lparr>todo := cs\<rparr>],
                          trace := trace s @ [c]\<rparr>"
  | "i < length (tasks s)" "phase (tasks s ! i) = InTest" "todo (tasks s ! i) = []"
      "ending (tasks s ! i) = Returns" "0 < chanFill s"
      "task_step i s = s\<lparr>tasks := (tasks s)[i := (tasks s ! i)\<lparr>phase := Deferred\<rparr>],
                          chanFill := chanFill s - 1\<rparr>"
  | "i < length (tasks s)" "phase (tasks s ! i) = InTest" "todo (tasks s ! i) = []"
      "ending (tasks s ! i) = Panics"
      "task_step i s = s\<lparr>tasks := (tasks s)[i := (tasks s ! i)\<lparr>phase := Deferred\<rparr>]\<rparr>"
  | "i < length (tasks s)" "phase (tasks s ! i) = Deferred" "wg s \<noteq> 0"
      "task_step i s = s\<lparr>tasks := (tasks s)[i := (tasks s ! i)\<lparr>phase := Gone\<rparr>],
                          wg := wg s - 1, crashed := (ending (tasks s ! i) = Panics)\<rparr>"
proof (cases "crashed s \<or> length (tasks s) \<le> i")
  case True
  then have "task_step i s = s" by (simp add: task_step_def)
  then show ?thesis by (rule that(1))
next
  case False
  then have i: "i < length (tasks s)" by simp
  show ?thesis
  proof (cases "phase (tasks s ! i)")
    case InTest
    show ?thesis
    proof (cases "todo (tasks s ! i)")
      case Nil
      show ?thesis
      proof (cases "ending (tasks s ! i)")
        case Returns
        show ?thesis
        proof (cases "0 < chanFill s")
          case True
          show ?thesis
            by (rule that(4) [OF i InTest Nil Returns True])
              (use False InTest Nil Returns True in \<open>simp add: task_step_def Let_def\<close>)
        next
          case F: False
          show ?thesis
            by (rule that(1))
              (use False InTest Nil Returns F in \<open>simp add: task_step_def Let_def\<close>)
        qed
      next
        case Panics
        show ?thesis
          by (rule that(5) [OF i InTest Nil Panics])
            (use False InTest Nil Panics in \<open>simp add: task_step_def Let_def\<close>)
      next
        case Blocks
        show ?thesis
          by (rule that(1))
            (use False InTest Nil Blocks in \<open>simp add: task_step_def Let_def\<close>)
      qed
    next
      case (Cons c cs)
      show ?thesis
        by (rule that(3) [OF i InTest Cons])
          (use False InTest Cons in \<open>simp add: task_step_def Let_def\<close>)
    qed
  next
    case Deferred
    show ?thesis
    proof (cases "wg s = 0")
      case True
      show ?thesis
        by (rule that(2))
          (use False Deferred True in \<open>simp add: task_step_def Let_def\<close>)
    next
      case F: False
      show ?thesis
        by (rule that(6) [OF i Deferred F])
          (use False Deferred F in \<open>simp add: task_step_def Let_def\<close>)
    qed
  next
    case Gone
    show ?thesis
      by (rule that(1)) (use False Gone in \<open>simp add: task_step_def Let_def\<close>)
  qed
qed

subsection \<open>The invariant\<close>

lemma main_step_inv: "conc_inv cap s \<Longrightarrow> conc_inv cap (main_step ck opt cap s)"
  by (auto simp: conc_inv_def main_step_def counts_defs new_task_def Let_def
      split: list.splits mainpc.splits)

lemma task_step_inv:
  assumes inv: "conc_inv cap s"
  shows "conc_inv cap (task_step i s)"
proof -
  note cu = count_update [of i "tasks s"]
  from inv have fill: "chanFill s = executing s + unreleased s + main_holds s"
    and cap: "chanFill s \<le> cap" and w: "wg s = alive s + main_added s" and st: "stale s = 0"
    by (simp_all add: conc_inv_def)
  show ?thesis
  proof (cases rule: task_step_cases [of i s])
    case idle
    then show ?thesis using inv by simp
  next
    case crash
    then show ?thesis using inv by (simp add: conc_inv_def counts_defs)
  next
    case (call c cs)
    define s' where "s' = task_step i s"
    define t' where "t' = (tasks s ! i)\<lparr>todo := cs\<rparr>"
    have "executing s' = executing s" "unreleased s' = unreleased s" "alive s' = alive s"
      "stale s' = stale s" "main_holds s' = main_holds s" "main_added s' = main_added s"
      "chanFill s' = chanFill s" "wg s' = wg s"
      using call
        cu [OF call(1), of "\<lambda>t. phase t = InTest" t']
        cu [OF call(1), of "\<lambda>t. phase t \<noteq> InTest \<and> ending t = Panics" t']
        cu [OF call(1), of "\<lambda>t. phase t \<noteq> Gone" t']
        cu [OF call(1), of "\<lambda>t. phase t \<noteq> InTest \<and> todo t \<noteq> []" t']
      by (simp_all add: s'_def t'_def counts_defs)
    then show ?thesis
      unfolding s'_def [symmetric] conc_inv_def using fill cap w st by arith
  next
    case release
    define s' where "s' = task_step i s"
    define t' where "t' = (tasks s ! i)\<lparr>phase := Deferred\<rparr>"
    have "Suc (executing s') = executing s" "unreleased s' = unreleased s" "alive s' = alive s"
      "stale s' = stale s" "main_holds s' = main_holds s" "main_added s' = main_added s"
      "chanFill s' = chanFill s - 1" "wg s' = wg s"
      using release
        cu [OF release(1), of "\<lambda>t. phase t = InTest" t']
        cu [OF release(1), of "\<lambda>t. phase t \<noteq> InTest \<and> ending t = Panics" t']
        cu [OF release(1), of "\<lambda>t. phase t \<noteq> Gone" t']
        cu [OF release(1), of "\<lambda>t. phase t \<noteq> InTest \<and> todo t \<noteq> []" t']
      by (simp_all add: s'_def t'_def counts_defs)
    then show ?thesis
      unfolding s'_def [symmetric] conc_inv_def using fill cap w st release(5) by arith
  next
    case panic
    define s' where "s' = task_step i s"
    define t' where "t' = (tasks s ! i)\<lparr>phase := Deferred\<rparr>"
    have "Suc (executing s') = executing s" "unreleased s' = Suc (unreleased s)"
      "alive s' = alive s" "stale s' = stale s" "main_holds s' = main_holds s"
      "main_added s' = main_added s" "chanFill s' = chanFill s" "wg s' = wg s"
      using panic
        cu [OF panic(1), of "\<lambda>t. phase t = InTest" t']
        cu [OF panic(1), of "\<lambda>t. phase t \<noteq> InTest \<and> ending t = Panics" t']
        cu [OF panic(1), of "\<lambda>t. phase t \<noteq> Gone" t']
        cu [OF panic(1), of "\<lambda>t. phase t \<noteq> InTest \<and> todo t \<noteq> []" t']
      by (simp_all add: s'_def t'_def counts_defs)
    then show ?thesis
      unfolding s'_def [symmetric] conc_inv_def using fill cap w st by arith
  next
    case wgdone
    define s' where "s' = task_step i s"
    define t' where "t' = (tasks s ! i)\<lparr>phase := Gone\<rparr>"
    have "executing s' = executing s" "unreleased s' = unreleased s"
      "Suc (alive s') = alive s" "stale s' = stale s" "main_holds s' = main_holds s"
      "main_added s' = main_added s" "chanFill s' = chanFill s" "wg s' = wg s - 1"
      using wgdone
        cu [OF wgdone(1), of "\<lambda>t. phase t = InTest" t']
        cu [OF wgdone(1), of "\<lambda>t. phase t \<noteq> InTest \<and> ending t = Panics" t']
        cu [OF wgdone(1), of "\<lambda>t. phase t \<noteq> Gone" t']
        cu [OF wgdone(1), of "\<lambda>t. phase t \<noteq> InTest \<and> todo t \<noteq> []" t']
      by (simp_all add: s'_def t'_def counts_defs)
    then show ?thesis
      unfolding s'_def [symmetric] conc_inv_def using fill cap w st wgdone(3) by arith
  qed
qed

lemma conc_step_inv: "conc_inv cap s \<Longrightarrow> conc_inv cap (conc_step ck opt cap s c)"
  by (cases c) (simp_all add: main_step_inv task_step_inv)

lemma conc_run_inv: "conc_inv cap s \<Longrightarrow> conc_inv cap (conc_run ck opt cap sched s)"
  unfolding conc_run_def
  by (induction sched arbitrary: s) (simp_all add: conc_step_inv)

lemma conc_init_inv: "conc_inv cap (conc_init docs)"
  by (simp add: conc_inv_def conc_init_def counts_defs)

text \<open>
  C2, as amended. At every point of every concurrent run, under any schedule, the slots
  in \<open>concChannel\<close> are exactly: one for each task still executing \<open>testDocument\<close>, one
  for each task whose \<open>testDocument\<close> has panicked, and one that the main goroutine has
  put in for the task it is about to start. So the slot of a document task is taken
  before the task starts and is given back exactly once when \<open>testDocument\<close> returns; a
  task that panics runs its deferred \<^verbatim>\<open>wg.Done()\<close> but never gives its slot back.
\<close>

theorem slot_kept_until_return:
  "chanFill (conc_run ck opt cap sched (conc_init docs))
     = executing (conc_run ck opt cap sched (conc_init docs))
       + unreleased (conc_run ck opt cap sched (conc_init docs))
       + main_holds (conc_run ck opt cap sched (conc_init docs))"
  using conc_run_inv [OF conc_init_inv, of cap ck opt sched docs]
  by (simp add: conc_inv_def)

theorem slot_kept_until_return_witness:
  "executing (conc_run ck0 opt0 2 [Main, Main, Main, Main, Main] (conc_init [doc0, doc0])) = 1
   \<and> unreleased (conc_run ck0 opt0 2 [Main, Main, Main, Main, Main] (conc_init [doc0, doc0])) = 0
   \<and> main_holds (conc_run ck0 opt0 2 [Main, Main, Main, Main, Main] (conc_init [doc0, doc0])) = 1
   \<and> chanFill (conc_run ck0 opt0 2 [Main, Main, Main, Main, Main] (conc_init [doc0, doc0])) = 2"
proof -
  let ?s = "conc_run ck0 opt0 2 [Main, Main, Main, Main, Main] (conc_init [doc0, doc0])"
  have e: "executing ?s = 1" and u: "unreleased ?s = 0" and m: "main_holds ?s = 1"
    by (simp_all add: conc_run_def conc_init_def main_step_def new_task_def counts_defs Let_def)
  from slot_kept_until_return [of ck0 opt0 2 "[Main, Main, Main, Main, Main]" "[doc0, doc0]"]
  have "chanFill ?s = 2" unfolding e u m by simp
  with e u m show ?thesis by simp
qed

text \<open>
  C2, counterexample. One document whose parse panics, pool size 1: after the task has
  gone, no task is executing and the main goroutine holds nothing, yet the slot is still
  in the channel.
\<close>

theorem panic_keeps_slot:
  "executing (conc_run ck_panic opt0 1 [Main, Main, Main, Task 0, Task 0, Task 0]
      (conc_init [doc0])) = 0
   \<and> map phase (tasks (conc_run ck_panic opt0 1 [Main, Main, Main, Task 0, Task 0, Task 0]
        (conc_init [doc0]))) = [Gone]
   \<and> chanFill (conc_run ck_panic opt0 1 [Main, Main, Main, Task 0, Task 0, Task 0]
        (conc_init [doc0])) = 1
   \<and> \<not> slots_returned (conc_run ck_panic opt0 1 [Main, Main, Main, Task 0, Task 0, Task 0]
        (conc_init [doc0]))"
  by (simp add: conc_run_def conc_init_def main_step_def task_step_def new_task_def
      testDocument_def ck_panic_def ck0_def slots_returned_def executing_def main_holds_def
      Let_def)

subsection \<open>The two gates\<close>

lemma gate_bounded: "h \<le> cap \<Longrightarrow> foldl (gate_step cap) h ops \<le> cap"
proof (induction ops arbitrary: h)
  case Nil
  then show ?case by simp
next
  case (Cons x ops)
  from Cons.prems have "gate_step cap h x \<le> cap" by (cases x) auto
  then show ?case using Cons.IH by simp
qed

text \<open>
  C6. The channel of the concurrent mode has the capacity \<open>DocumentConcurrencyLimit\<close>, and
  at every point of every run no more than that many document tasks are executing
  \<open>testDocument\<close>. The fetch limiter is the one channel of the session, created by
  \<open>Test\<close> with the capacity \<open>HTTPConcurrencyLimit\<close>, whatever the document limit is, and
  under any sequence of acquisitions and releases no more than that many probes are in
  flight.
\<close>

theorem two_bounded_gates:
  "(make_chan (DocumentConcurrencyLimit opt) = Some cap \<longrightarrow>
      int cap = DocumentConcurrencyLimit opt
      \<and> executing (conc_run ck opt cap sched (conc_init docs)) \<le> cap)
   \<and> (newSession col u = Some hT \<longrightarrow>
      int (httpChannel hT) = HTTPConcurrencyLimit (opts hT)
      \<and> probes_in_flight (httpChannel hT) ops \<le> httpChannel hT)"
proof -
  have "executing (conc_run ck opt cap sched (conc_init docs)) \<le> cap"
    using conc_run_inv [OF conc_init_inv, of cap ck opt sched docs]
    by (simp add: conc_inv_def)
  moreover have "int cap = DocumentConcurrencyLimit opt"
    if "make_chan (DocumentConcurrencyLimit opt) = Some cap"
    using that by (auto simp: make_chan_def split: if_splits)
  moreover have "int (httpChannel hT) = HTTPConcurrencyLimit (opts hT)"
    if "newSession col u = Some hT"
    using that by (auto simp: newSession_def make_chan_def Let_def split: if_splits)
  moreover have "probes_in_flight (httpChannel hT) ops \<le> httpChannel hT"
    unfolding probes_in_flight_def by (rule gate_bounded) simp
  ultimately show ?thesis by blast
qed

theorem two_bounded_gates_witness:
  "make_chan (DocumentConcurrencyLimit opt0) = Some 2
   \<and> executing (conc_run ck0 opt0 2 [Main, Main, Main, Main, Main, Main, Main, Main]
        (conc_init [doc0, doc0, doc0])) = 2
   \<and> (\<exists>hT. newSession col0 Map.empty = Some hT \<and> httpChannel hT = 4
        \<and> probes_in_flight (httpChannel hT) [Acquire, Acquire, Release, Acquire] \<le> 4)"
proof -
  let ?sched = "[Main, Main, Main, Main, Main, Main, Main, Main]"
  have m: "make_chan (DocumentConcurrencyLimit opt0) = Some 2"
    by (simp add: make_chan_def opt0_def)
  have so: "setOptions col0 Map.empty = opt0" by (simp add: col0_def opt0_def)
  obtain hT where h: "newSession col0 Map.empty = Some hT"
    by (simp add: newSession_def so opt0_def make_chan_def Let_def)
  have o: "opts hT = opt0" using newSession_opts [OF h] so by simp
  have e: "2 \<le> executing (conc_run ck0 opt0 2 ?sched (conc_init [doc0, doc0, doc0]))"
    by (simp add: conc_run_def conc_init_def main_step_def new_task_def executing_def Let_def)
  note inst = two_bounded_gates [of opt0 2 ck0 ?sched "[doc0, doc0, doc0]" col0 Map.empty hT
      "[Acquire, Acquire, Release, Acquire]"]
  from inst m have b1: "executing (conc_run ck0 opt0 2 ?sched (conc_init [doc0, doc0, doc0])) \<le> 2"
    by blast
  from inst h have b2: "int (httpChannel hT) = HTTPConcurrencyLimit (opts hT)"
    and b3: "probes_in_flight (httpChannel hT) [Acquire, Acquire, Release, Acquire]
               \<le> httpChannel hT"
    by blast+
  from b1 e have a1: "executing (conc_run ck0 opt0 2 ?sched (conc_init [doc0, doc0, doc0])) = 2"
    by linarith
  from b2 have a2: "httpChannel hT = 4" by (simp add: o opt0_def)
  from b3 have a3: "probes_in_flight (httpChannel hT) [Acquire, Acquire, Release, Acquire] \<le> 4"
    unfolding a2 .
  from m a1 h a2 a3 show ?thesis by blast
qed


subsection \<open>The issues of a concurrent run\<close>








subsection \<open>A schedule that completes\<close>






subsection \<open>The two modes\<close>

lemma dispatch_TFC [simp]:
  "dispatch ck (opt\<lparr>TestFilesConcurrently := b\<rparr>) p n d = dispatch ck opt p n d"
  by (simp add: dispatch_def)

lemma traverse_TFC [simp]:
  "traverse ck (opt\<lparr>TestFilesConcurrently := b\<rparr>) p ns d = traverse ck opt p ns d"
  by (induction ns arbitrary: d) simp_all

lemma testDocument_TFC [simp]:
  "testDocument ck (opt\<lparr>TestFilesConcurrently := b\<rparr>) d = testDocument ck opt d"
  by (simp add: testDocument_def postChecks_def doctype_calls_def Let_def split: option.splits)

lemma testDocuments_seq_TFC [simp]:
  "testDocuments_seq ck (opt\<lparr>TestFilesConcurrently := b\<rparr>) ds = testDocuments_seq ck opt ds"
  by (induction ds) (simp_all add: Let_def)

lemma new_task_TFC [simp]:
  "new_task ck (opt\<lparr>TestFilesConcurrently := b\<rparr>) d = new_task ck opt d"
  by (simp add: new_task_def)

lemma conc_step_TFC [simp]:
  "conc_step ck (opt\<lparr>TestFilesConcurrently := b\<rparr>) cap s c = conc_step ck opt cap s c"
  by (cases c) (simp_all add: main_step_def split: list.splits mainpc.splits)

lemma conc_run_TFC [simp]:
  "conc_run ck (opt\<lparr>TestFilesConcurrently := b\<rparr>) cap sched s = conc_run ck opt cap sched s"
  unfolding conc_run_def by (induction sched arbitrary: s) simp_all




subsection \<open>A document limit of zero\<close>

text \<open>With a document limit of zero the first send blocks for ever.\<close>

lemma zero_limit_stuck:
  "pending s = docs \<and> mpc s \<noteq> AtGo \<and> chanFill s = 0 \<and> tasks s = [] \<Longrightarrow>
   pending (conc_step ck opt 0 s c) = docs \<and> mpc (conc_step ck opt 0 s c) \<noteq> AtGo
   \<and> chanFill (conc_step ck opt 0 s c) = 0 \<and> tasks (conc_step ck opt 0 s c) = []"
  by (cases c) (auto simp: main_step_def task_step_def split: list.splits mainpc.splits)

lemma zero_limit_never_finishes:
  assumes "docs \<noteq> []"
  shows "\<not> finished (conc_run ck opt 0 sched (conc_init docs))"
proof -
  have "pending s = docs \<and> mpc s \<noteq> AtGo \<and> chanFill s = 0 \<and> tasks s = [] \<Longrightarrow>
        pending (conc_run ck opt 0 sched s) = docs" for s
    unfolding conc_run_def
  proof (induction sched arbitrary: s)
    case Nil
    then show ?case by simp
  next
    case (Cons c sched)
    from zero_limit_stuck [OF Cons.prems] show ?case
      using Cons.IH by simp
  qed
  from this [of "conc_init docs"] have "pending (conc_run ck opt 0 sched (conc_init docs)) = docs"
    by (simp add: conc_init_def)
  with assms show ?thesis by (simp add: finished_def)
qed

end
